theory Spec2Isabelle
  imports Main "HOL-Library.Sublist"
begin

section \<open>Python values and strings\<close>

text \<open>
  The chatbot engine (\<^verbatim>\<open>chatbot_engine.py\<close>) and the web application (\<^verbatim>\<open>app.py\<close>)
  work on dynamically typed Python values. A string is a list of characters; a character
  stands for a code point below 256, and lengths count characters as Python's \<^verbatim>\<open>len\<close>
  counts code points.
\<close>

definition is_space :: "char \<Rightarrow> bool" where
  \<comment> \<open>\<^verbatim>\<open>str.isspace\<close> on one character: the code points 9-13, 28-32, 133 and 160.\<close>
  "is_space c =
     (let n = (of_char c :: nat)
      in (9 \<le> n \<and> n \<le> 13) \<or> (28 \<le> n \<and> n \<le> 32) \<or> n = 133 \<or> n = 160)"

definition strip :: "string \<Rightarrow> string" where
  \<comment> \<open>\<^verbatim>\<open>s.strip()\<close>: leading and trailing whitespace removed.\<close>
  "strip s = rev (dropWhile is_space (rev (dropWhile is_space s)))"

fun join :: "string \<Rightarrow> string list \<Rightarrow> string" where
  \<comment> \<open>\<^verbatim>\<open>sep.join(parts)\<close>\<close>
  "join sep [] = []"
| "join sep [p] = p"
| "join sep (p # q # ps) = p @ sep @ join sep (q # ps)"

definition lower_char :: "char \<Rightarrow> char" where
  \<comment> \<open>\<^verbatim>\<open>str.lower\<close> on one character below 256: A-Z and the Latin-1 capitals.\<close>
  "lower_char c =
     (let n = (of_char c :: nat)
      in if (65 \<le> n \<and> n \<le> 90) \<or> (192 \<le> n \<and> n \<le> 222 \<and> n \<noteq> 215)
         then char_of (n + 32) else c)"

definition lower :: "string \<Rightarrow> string" where
  "lower s = map lower_char s"

definition contains :: "string \<Rightarrow> string \<Rightarrow> bool" where
  \<comment> \<open>\<^verbatim>\<open>sub in s\<close> on strings: \<open>sub\<close> occurs in \<open>s\<close> as a contiguous run.\<close>
  "contains sub s = (\<exists>i \<in> set (upt 0 (Suc (length s))). prefix sub (drop i s))"

text \<open>
  A Python value as the engine meets it: \<^verbatim>\<open>None\<close>, a string, a number, a list, a
  dictionary with string keys (an association list read with \<open>map_of\<close>), or an object given
  by its class name and its attributes.
\<close>

datatype pyval =
    PNone
  | PStr string
  | PInt int
  | PList "pyval list"
  | PDict "(string \<times> pyval) list"
  | PObj string "(string \<times> pyval) list"

fun truthy :: "pyval \<Rightarrow> bool" where
  \<comment> \<open>Python truth value; an object without \<^verbatim>\<open>__bool__\<close> and \<^verbatim>\<open>__len__\<close> is true.\<close>
  "truthy PNone = False"
| "truthy (PStr s) = (s \<noteq> [])"
| "truthy (PInt i) = (i \<noteq> 0)"
| "truthy (PList xs) = (xs \<noteq> [])"
| "truthy (PDict d) = (d \<noteq> [])"
| "truthy (PObj c a) = True"

definition dict_get :: "(string \<times> pyval) list \<Rightarrow> string \<Rightarrow> pyval" where
  \<comment> \<open>\<^verbatim>\<open>d.get(key)\<close>, \<^verbatim>\<open>None\<close> when the key is missing.\<close>
  "dict_get d k = (case map_of d k of None \<Rightarrow> PNone | Some v \<Rightarrow> v)"

text \<open>
  Exceptions derived from \<^verbatim>\<open>Exception\<close>, each with its message (\<^verbatim>\<open>str(e)\<close>).
  \<^verbatim>\<open>TimeoutError\<close> is the one class the engine tells apart.
\<close>

datatype py_exc = TimeoutError string | AttributeError string | OtherException string

fun exc_str :: "py_exc \<Rightarrow> string" where
  "exc_str (TimeoutError m) = m"
| "exc_str (AttributeError m) = m"
| "exc_str (OtherException m) = m"

section \<open>Content Normalizer\<close>

text \<open>
  \<^verbatim>\<open>MedicalChatbot._extract_text_content\<close>. The result is \<open>Inr None\<close> for Python's
  \<^verbatim>\<open>None\<close>, \<open>Inr (Some t)\<close> for a string, and \<open>Inl e\<close> when the call raises.
  The one place that can raise is \<^verbatim>\<open>message_content.get("text", "").strip()\<close>: the
  value stored under \<^verbatim>\<open>"text"\<close> has a \<^verbatim>\<open>strip\<close> method only when it is a string.
  \<open>extract_blocks\<close> is the \<^verbatim>\<open>for block in message_content\<close> loop with its
  accumulator \<^verbatim>\<open>parts\<close>. Calls of the logger have no effect on any result and are
  left out throughout.
\<close>

definition strip_attr_error :: py_exc where
  "strip_attr_error = AttributeError ''object has no attribute strip''"

function (sequential) extract_text_content :: "pyval \<Rightarrow> py_exc + string option"
  and extract_blocks :: "pyval list \<Rightarrow> string list \<Rightarrow> py_exc + string list"
where
  "extract_text_content PNone = Inr None"
| "extract_text_content (PStr s) =
     (let text = strip s in Inr (if text \<noteq> [] then Some text else None))"
| "extract_text_content (PDict d) =
     (if dict_get d ''type'' = PStr ''text'' then
        (case map_of d ''text'' of
           None \<Rightarrow> (let text = strip [] in Inr (if text \<noteq> [] then Some text else None))
         | Some (PStr s) \<Rightarrow> (let text = strip s in Inr (if text \<noteq> [] then Some text else None))
         | Some _ \<Rightarrow> Inl strip_attr_error)
      else
        (case map_of d ''content'' of
           Some v \<Rightarrow> extract_text_content v
         | None \<Rightarrow>
        (case map_of d ''text'' of
           Some v \<Rightarrow> extract_text_content v
         | None \<Rightarrow>
        (case map_of d ''value'' of
           Some v \<Rightarrow> extract_text_content v
         | None \<Rightarrow> Inr None))))"
| "extract_text_content (PList blocks) =
     (case extract_blocks blocks [] of
        Inl e \<Rightarrow> Inl e
      | Inr parts \<Rightarrow>
          if parts \<noteq> [] then Inr (Some (strip (join ''\<newline>\<newline>'' parts))) else Inr None)"
| "extract_text_content (PInt i) = Inr None"
| "extract_text_content (PObj c a) = Inr None"
| "extract_blocks [] parts = Inr parts"
| "extract_blocks (block # rest) parts =
     (case extract_text_content block of
        Inl e \<Rightarrow> Inl e
      | Inr block_text \<Rightarrow>
          extract_blocks rest
            (case block_text of
               Some t \<Rightarrow> if t \<noteq> [] then parts @ [t] else parts
             | None \<Rightarrow> parts))"
  by pat_completeness auto
termination
proof -
  have map_of_size:
    "size v < Suc (size_list (size_prod (\<lambda>_. 0) size) d)" if "map_of d k = Some v"
    for d :: "(string \<times> pyval) list" and k v
    using that by (induction d) (auto split: if_splits)
  show ?thesis
    by (relation "measure (\<lambda>x. case x of Inl v \<Rightarrow> size v | Inr (bs, ps) \<Rightarrow> size_list size bs)")
       (auto dest: map_of_size)
qed

text \<open>
  A string is \<open>clean\<close> when it is not empty and neither starts nor ends with whitespace.
  \<open>first_error\<close> is the first exception among the results of a run of calls, and
  \<open>texts\<close> keeps the non-empty strings among them, in order.
\<close>

definition clean :: "string \<Rightarrow> bool" where
  "clean s = (s \<noteq> [] \<and> \<not> is_space (hd s) \<and> \<not> is_space (last s))"

fun first_error :: "('e + 'a) list \<Rightarrow> 'e option" where
  "first_error [] = None"
| "first_error (Inl e # rs) = Some e"
| "first_error (Inr r # rs) = first_error rs"

fun texts :: "('e + string option) list \<Rightarrow> string list" where
  "texts [] = []"
| "texts (Inr (Some t) # rs) = (if t \<noteq> [] then t # texts rs else texts rs)"
| "texts (r # rs) = texts rs"

section \<open>Response Assembler\<close>

text \<open>
  A message is an object (a LangChain message, with its class name and attributes) or a
  dictionary. \<^verbatim>\<open>hasattr(last_message, 'type')\<close> holds for an object that has the
  attribute; a dictionary, a string, a number, a list and \<^verbatim>\<open>None\<close> have neither a
  \<^verbatim>\<open>type\<close> nor a \<^verbatim>\<open>content\<close> attribute.
\<close>

fun message_type_of :: "pyval \<Rightarrow> pyval" where
  "message_type_of (PObj c a) = (case map_of a ''type'' of Some v \<Rightarrow> v | None \<Rightarrow> PNone)"
| "message_type_of (PDict d) =
     (let t = dict_get d ''type'' in if truthy t then t else dict_get d ''role'')"
| "message_type_of _ = PNone"

fun raw_content_of :: "pyval \<Rightarrow> pyval" where
  "raw_content_of (PObj c a) = (case map_of a ''content'' of Some v \<Rightarrow> v | None \<Rightarrow> PNone)"
| "raw_content_of (PDict d) = dict_get d ''content''"
| "raw_content_of _ = PNone"

fun class_name :: "pyval \<Rightarrow> string" where
  \<comment> \<open>\<^verbatim>\<open>last_message.__class__.__name__\<close>\<close>
  "class_name (PObj c a) = c"
| "class_name PNone = ''NoneType''"
| "class_name (PStr s) = ''str''"
| "class_name (PInt i) = ''int''"
| "class_name (PList xs) = ''list''"
| "class_name (PDict d) = ''dict''"

definition is_ai_message :: "pyval \<Rightarrow> bool" where
  \<comment> \<open>Every Python value has \<^verbatim>\<open>__class__\<close>, so the \<^verbatim>\<open>elif\<close> branch is always entered
      when the type is neither \<^verbatim>\<open>'ai'\<close> nor \<^verbatim>\<open>'assistant'\<close>.\<close>
  "is_ai_message last_message =
     (let message_type = message_type_of last_message
      in if message_type = PStr ''ai'' \<or> message_type = PStr ''assistant'' then True
         else contains ''aimessage'' (lower (class_name last_message)))"

text \<open>
  An event of the agent's stream is a dictionary whose \<^verbatim>\<open>"messages"\<close> entry, when
  present, is the list of messages so far. The stream is the events it yields and how it
  ends: exhausted, or raising an exception.
\<close>

type_synonym event = "(string \<times> pyval list) list"

datatype stream_end = Exhausted | Raises py_exc

type_synonym agent_stream = "event list \<times> stream_end"

definition event_messages :: "event \<Rightarrow> pyval list" where
  \<comment> \<open>\<^verbatim>\<open>event.get("messages", [])\<close>\<close>
  "event_messages ev = (case map_of ev ''messages'' of None \<Rightarrow> [] | Some ms \<Rightarrow> ms)"

fun get_response_loop :: "event list \<Rightarrow> string option \<Rightarrow> py_exc + string option" where
  \<comment> \<open>The \<^verbatim>\<open>for event in self.agent.stream(...)\<close> loop over the yielded events, with
      \<^verbatim>\<open>final_response\<close> as the state; the event counter is only logged.\<close>
  "get_response_loop [] final_response = Inr final_response"
| "get_response_loop (ev # evs) final_response =
     (let messages = event_messages ev
      in if messages = [] then get_response_loop evs final_response
         else
           (let last_message = last messages
            in case extract_text_content (raw_content_of last_message) of
                 Inl e \<Rightarrow> Inl e
               | Inr text_content \<Rightarrow>
                   get_response_loop evs
                     (if is_ai_message last_message \<and> text_content \<noteq> None \<and> text_content \<noteq> Some []
                      then text_content else final_response)))"

definition get_response_try :: "string \<Rightarrow> agent_stream \<Rightarrow> py_exc + string" where
  \<comment> \<open>The body of the \<^verbatim>\<open>try\<close> block.\<close>
  "get_response_try user_message stream =
     (if user_message = [] \<or> strip user_message = [] then Inr ''Please provide a valid question.''
      else
        (case get_response_loop (fst stream) None of
           Inl e \<Rightarrow> Inl e
         | Inr final_response \<Rightarrow>
             (case snd stream of
                Raises e \<Rightarrow> Inl e
              | Exhausted \<Rightarrow>
                  (case final_response of
                     Some t \<Rightarrow>
                       if t \<noteq> [] then Inr t
                       else Inr ''I apologize, but I couldn't generate a response. Please try rephrasing your question or ask something else.''
                   | None \<Rightarrow>
                       Inr ''I apologize, but I couldn't generate a response. Please try rephrasing your question or ask something else.''))))"

definition get_response :: "string \<Rightarrow> agent_stream \<Rightarrow> string" where
  "get_response user_message stream =
     (case get_response_try user_message stream of
        Inr r \<Rightarrow> r
      | Inl (TimeoutError m) \<Rightarrow> ''The request timed out. Please try again with a shorter question.''
      | Inl _ \<Rightarrow>
          ''I apologize, but I encountered an error processing your request. Please try again or rephrase your question.'')"

subsection \<open>The assembler as the specification describes it\<close>

text \<open>
  These definitions follow the words of the specification, not the loop of the code; the
  theorems below compare the two. \<open>candidate\<close> is the text an event offers as the
  answer: the normalized content of the event's most recent message, when that message is
  assistant-authored and its content normalizes to a text. \<open>candidates\<close> lists these
  texts in stream order, so that the last one is the answer the specification asks for.
  An event \<open>event_raises\<close> when normalizing the content of its most recent message
  raises.
\<close>

definition candidate :: "event \<Rightarrow> string option" where
  "candidate ev =
     (if event_messages ev = [] then None
      else if is_ai_message (last (event_messages ev))
      then (case extract_text_content (raw_content_of (last (event_messages ev))) of
              Inr (Some t) \<Rightarrow> Some t
            | _ \<Rightarrow> None)
      else None)"

fun candidates :: "event list \<Rightarrow> string list" where
  "candidates [] = []"
| "candidates (ev # evs) =
     (case candidate ev of Some t \<Rightarrow> t # candidates evs | None \<Rightarrow> candidates evs)"

definition event_raises :: "event \<Rightarrow> bool" where
  "event_raises ev =
     (event_messages ev \<noteq> [] \<and>
      isl (extract_text_content (raw_content_of (last (event_messages ev)))))"

fun is_timeout :: "py_exc \<Rightarrow> bool" where
  \<comment> \<open>The exceptions that \<^verbatim>\<open>except TimeoutError\<close> catches.\<close>
  "is_timeout (TimeoutError m) = True"
| "is_timeout e = False"

section \<open>Retrieval Tool Adapter\<close>

text \<open>
  A retrieved passage is a document with its metadata dictionary and its text. The vector
  store handle is \<open>None\<close> when it is not available; otherwise it is its
  \<^verbatim>\<open>similarity_search(query, k)\<close>, which returns passages or raises.
\<close>

record document =
  metadata :: "(string \<times> pyval) list"
  page_content :: string

type_synonym vectorstore = "string \<Rightarrow> int \<Rightarrow> py_exc + document list"

definition metadata_source :: "document \<Rightarrow> pyval" where
  \<comment> \<open>\<^verbatim>\<open>doc.metadata.get('source', 'Unknown')\<close>\<close>
  "metadata_source doc =
     (case map_of (metadata doc) ''source'' of None \<Rightarrow> PStr ''Unknown'' | Some v \<Rightarrow> v)"

definition format_value :: "(pyval \<Rightarrow> string) \<Rightarrow> pyval \<Rightarrow> string" where
  \<comment> \<open>A value inside an f-string: a string stands for itself; the text of any other
      value is Python's \<^verbatim>\<open>str\<close> of it, taken as the parameter \<open>py_str\<close>.\<close>
  "format_value py_str v = (case v of PStr s \<Rightarrow> s | _ \<Rightarrow> py_str v)"

definition format_doc :: "(pyval \<Rightarrow> string) \<Rightarrow> document \<Rightarrow> string" where
  "format_doc py_str doc =
     ''Source: '' @ format_value py_str (metadata_source doc) @ ''\<newline>Content: '' @ page_content doc"

definition retrieve_medical_context ::
  "(pyval \<Rightarrow> string) \<Rightarrow> vectorstore option \<Rightarrow> string \<Rightarrow> string \<times> document list" where
  "retrieve_medical_context py_str vs query =
     (case vs of
        None \<Rightarrow> (''Knowledge base is not available.'', [])
      | Some similarity_search \<Rightarrow>
          (case similarity_search query 3 of
             Inl e \<Rightarrow> (''Error accessing knowledge base: '' @ exc_str e, [])
           | Inr retrieved_docs \<Rightarrow>
               if retrieved_docs = []
               then (''No relevant medical information found in the knowledge base.'', [])
               else (join ''\<newline>\<newline>'' (map (format_doc py_str) retrieved_docs), retrieved_docs)))"

record source_entry =
  source :: pyval
  content :: string

definition source_of_doc :: "document \<Rightarrow> source_entry" where
  "source_of_doc doc =
     \<lparr>source = metadata_source doc,
      content = (if length (page_content doc) > 200 then take 200 (page_content doc) @ ''...''
                 else page_content doc)\<rparr>"

definition get_relevant_sources :: "vectorstore option \<Rightarrow> string \<Rightarrow> int \<Rightarrow> source_entry list" where
  \<comment> \<open>With no vector store, \<^verbatim>\<open>self.vectorstore.similarity_search\<close> raises an
      \<^verbatim>\<open>AttributeError\<close>, caught like any failure of the search.\<close>
  "get_relevant_sources vs query k =
     (case vs of
        None \<Rightarrow> []
      | Some similarity_search \<Rightarrow>
          (case similarity_search query k of
             Inl e \<Rightarrow> []
           | Inr docs \<Rightarrow> map source_of_doc docs))"

section \<open>Session and History Store\<close>

text \<open>
  \<^verbatim>\<open>app.py\<close> keeps the dictionary \<^verbatim>\<open>conversations\<close> from session identifiers to lists
  of turns, and Flask's \<^verbatim>\<open>session\<close> holds the client's \<^verbatim>\<open>session_id\<close> once one has
  been given. Fresh identifiers (\<^verbatim>\<open>uuid.uuid4()\<close>) and the clock
  (\<^verbatim>\<open>datetime.now().isoformat()\<close>) are inputs of the handlers. The request body of
  \<^verbatim>\<open>chat\<close> is \<open>None\<close> or a dictionary; \<open>chatbot\<close> is \<open>None\<close> when the engine
  failed to start, and otherwise gives the stream the agent produces for a user message.
\<close>

record turn =
  role :: string
  message :: string
  timestamp :: string

record app_state =
  conversations :: "string \<rightharpoonup> turn list"
  session_id :: "string option"

datatype http_response =
    JsonError nat string
  | ChatReply string string
  | HistoryReply "turn list"
  | ClearReply string string

definition index :: "string \<Rightarrow> app_state \<Rightarrow> app_state" where
  "index uuid st =
     (case session_id st of
        None \<Rightarrow> st\<lparr>session_id := Some uuid, conversations := (conversations st)(uuid \<mapsto> [])\<rparr>
      | Some sid \<Rightarrow> st)"

definition append_turn ::
  "(string \<rightharpoonup> turn list) \<Rightarrow> string \<Rightarrow> turn \<Rightarrow> py_exc + (string \<rightharpoonup> turn list)" where
  \<comment> \<open>\<^verbatim>\<open>conversations[session_id].append(turn)\<close>; a missing key raises \<^verbatim>\<open>KeyError\<close>.\<close>
  "append_turn convs sid t =
     (case convs sid of
        None \<Rightarrow> Inl (OtherException ''KeyError'')
      | Some ts \<Rightarrow> Inr (convs(sid \<mapsto> ts @ [t])))"

definition chat_try ::
  "(string \<Rightarrow> agent_stream) \<Rightarrow> (string \<times> pyval) list option \<Rightarrow> string \<Rightarrow>
   string \<Rightarrow> string \<Rightarrow> string \<Rightarrow> app_state \<Rightarrow> (py_exc + http_response) \<times> app_state" where
  \<comment> \<open>The body of the \<^verbatim>\<open>try\<close> block of \<^verbatim>\<open>chat\<close>: \<open>agent\<close> gives the stream the agent
      produces for a user message, \<open>data\<close> is \<^verbatim>\<open>request.get_json()\<close>.\<close>
  "chat_try agent data uuid now1 now2 now3 st =
     (case data of
        None \<Rightarrow> (Inl (AttributeError ''NoneType object has no attribute get''), st)
      | Some d \<Rightarrow>
          (case (case map_of d ''message'' of
                   None \<Rightarrow> Inr (strip [])
                 | Some (PStr m) \<Rightarrow> Inr (strip m)
                 | Some _ \<Rightarrow> Inl strip_attr_error) of
             Inl e \<Rightarrow> (Inl e, st)
           | Inr user_message \<Rightarrow>
               if user_message = [] then (Inr (JsonError 400 ''Message cannot be empty''), st)
               else if length user_message > 1000
               then (Inr (JsonError 400 ''Message is too long. Please keep it under 1000 characters.''), st)
               else
                 (let sid = (case session_id st of Some s \<Rightarrow> s | None \<Rightarrow> uuid);
                      st1 = st\<lparr>session_id := Some sid\<rparr>;
                      st2 = (if conversations st1 sid = None
                             then st1\<lparr>conversations := (conversations st1)(sid \<mapsto> [])\<rparr> else st1)
                  in case append_turn (conversations st2) sid
                            \<lparr>role = ''user'', message = user_message, timestamp = now1\<rparr> of
                       Inl e \<Rightarrow> (Inl e, st2)
                     | Inr convs3 \<Rightarrow>
                         (let st3 = st2\<lparr>conversations := convs3\<rparr>;
                              bot_response = get_response user_message (agent user_message)
                          in case append_turn (conversations st3) sid
                                    \<lparr>role = ''assistant'', message = bot_response, timestamp = now2\<rparr> of
                               Inl e \<Rightarrow> (Inl e, st3)
                             | Inr convs4 \<Rightarrow>
                                 (Inr (ChatReply bot_response now3),
                                  st3\<lparr>conversations := convs4\<rparr>)))))"

definition chat ::
  "(string \<Rightarrow> agent_stream) option \<Rightarrow> (string \<times> pyval) list option \<Rightarrow> string \<Rightarrow>
   string \<Rightarrow> string \<Rightarrow> string \<Rightarrow> app_state \<Rightarrow> http_response \<times> app_state" where
  "chat chatbot data uuid now1 now2 now3 st =
     (case chatbot of
        None \<Rightarrow>
          (JsonError 503 ''Chatbot service is currently unavailable. Please try again later.'', st)
      | Some agent \<Rightarrow>
          (case chat_try agent data uuid now1 now2 now3 st of
             (Inr r, st') \<Rightarrow> (r, st')
           | (Inl e, st') \<Rightarrow>
               (JsonError 500 ''An error occurred while processing your request. Please try again.'',
                st')))"

definition get_history :: "app_state \<Rightarrow> http_response" where
  "get_history st =
     (case session_id st of
        None \<Rightarrow> HistoryReply []
      | Some sid \<Rightarrow>
          if sid = [] \<or> conversations st sid = None then HistoryReply []
          else (case conversations st sid of
                  Some ts \<Rightarrow> HistoryReply ts
                | None \<Rightarrow> HistoryReply []))"

definition clear_history :: "app_state \<Rightarrow> http_response \<times> app_state" where
  "clear_history st =
     (ClearReply ''success'' ''Conversation history cleared'',
      (case session_id st of
         None \<Rightarrow> st
       | Some sid \<Rightarrow>
           if sid \<noteq> [] \<and> conversations st sid \<noteq> None
           then st\<lparr>conversations := (conversations st)(sid \<mapsto> [])\<rparr>
           else st))"

text \<open>
  Session identifiers are UUID strings, hence not empty: \<open>index\<close> and \<open>chat\<close> keep
  the stored identifier non-empty when the fresh identifier they are given is.
\<close>

definition valid_session :: "app_state \<Rightarrow> bool" where
  "valid_session st = (case session_id st of None \<Rightarrow> True | Some sid \<Rightarrow> sid \<noteq> [])"

section \<open>Properties of the string operations\<close>

lemma dropWhile_twice_Nil:
  "dropWhile P (rev (dropWhile P xs)) = [] \<longleftrightarrow> dropWhile P xs = []"
proof
  assume a: "dropWhile P (rev (dropWhile P xs)) = []"
  show "dropWhile P xs = []"
  proof (rule ccontr)
    assume ne: "dropWhile P xs \<noteq> []"
    then have "\<not> P (hd (dropWhile P xs))" by (rule hd_dropWhile)
    moreover from ne have "hd (dropWhile P xs) \<in> set (rev (dropWhile P xs))"
      by (simp del: dropWhile_eq_Nil_conv)
    moreover from a have "\<forall>x \<in> set (rev (dropWhile P xs)). P x"
      by (simp only: dropWhile_eq_Nil_conv)
    ultimately show False by blast
  qed
next
  assume "dropWhile P xs = []"
  then show "dropWhile P (rev (dropWhile P xs)) = []"
    by (simp del: dropWhile_eq_Nil_conv)
qed

lemma strip_eq_Nil: "strip s = [] \<longleftrightarrow> (\<forall>c \<in> set s. is_space c)"
proof -
  have "strip s = [] \<longleftrightarrow> dropWhile is_space s = []"
    unfolding strip_def rev_is_Nil_conv by (rule dropWhile_twice_Nil)
  then show ?thesis by (simp only: dropWhile_eq_Nil_conv)
qed

lemma last_dropWhile: "dropWhile P xs \<noteq> [] \<Longrightarrow> last (dropWhile P xs) = last xs"
  by (induction xs) (auto split: if_splits)

lemma clean_strip: "strip s \<noteq> [] \<Longrightarrow> clean (strip s)"
proof -
  assume ne: "strip s \<noteq> []"
  let ?d = "dropWhile is_space s"
  let ?r = "dropWhile is_space (rev ?d)"
  from ne have r: "?r \<noteq> []" unfolding strip_def rev_is_Nil_conv .
  then have d: "?d \<noteq> []" by (simp only: dropWhile_twice_Nil not_False_eq_True)
  have "\<not> is_space (hd ?r)" using r by (rule hd_dropWhile)
  then have l: "\<not> is_space (last (strip s))" using r by (simp add: strip_def last_rev)
  have "last ?r = last (rev ?d)" using r by (rule last_dropWhile)
  also have "\<dots> = hd ?d" using d by (simp add: last_rev)
  finally have "hd (strip s) = hd ?d" using r by (simp add: strip_def hd_rev)
  moreover have "\<not> is_space (hd ?d)" using d by (rule hd_dropWhile)
  ultimately show ?thesis using ne l by (simp add: clean_def)
qed

lemma strip_clean: "clean s \<Longrightarrow> strip s = s"
proof -
  assume c: "clean s"
  then have "dropWhile is_space s = s" by (cases s) (auto simp: clean_def)
  moreover have "dropWhile is_space (rev s) = rev s"
    using c by (cases "rev s") (auto simp: clean_def last_rev hd_rev dest: arg_cong[where f=hd])
  ultimately show ?thesis by (simp add: strip_def)
qed

lemma hd_join: "ps \<noteq> [] \<Longrightarrow> hd ps \<noteq> [] \<Longrightarrow> hd (join sep ps) = hd (hd ps)"
  by (induction sep ps rule: join.induct) auto

lemma join_Nil_iff: "\<forall>p \<in> set ps. p \<noteq> [] \<Longrightarrow> join sep ps = [] \<longleftrightarrow> ps = []"
  by (induction sep ps rule: join.induct) auto

lemma last_join: "ps \<noteq> [] \<Longrightarrow> \<forall>p \<in> set ps. p \<noteq> [] \<Longrightarrow> last (join sep ps) = last (last ps)"
  by (induction sep ps rule: join.induct) (auto simp: join_Nil_iff)

lemma clean_join: "ps \<noteq> [] \<Longrightarrow> \<forall>p \<in> set ps. clean p \<Longrightarrow> clean (join sep ps)"
  unfolding clean_def
  by (metis hd_join last_join join_Nil_iff hd_in_set last_in_set)


section \<open>Properties of the Content Normalizer\<close>

lemma extract_blocks_eq:
  "extract_blocks blocks parts =
     (case first_error (map extract_text_content blocks) of
        Some e \<Rightarrow> Inl e
      | None \<Rightarrow> Inr (parts @ texts (map extract_text_content blocks)))"
proof (induction blocks arbitrary: parts)
  case Nil
  then show ?case by simp
next
  case (Cons b bs)
  show ?case
  proof (cases "extract_text_content b")
    case (Inl e)
    then show ?thesis by simp
  next
    case (Inr r)
    then show ?thesis by (cases r) (simp_all add: Cons.IH split: option.splits)
  qed
qed

lemma extract_clean_aux:
  "(\<forall>t. extract_text_content x = Inr (Some t) \<longrightarrow> clean t)"
  "((\<forall>p \<in> set parts. clean p) \<longrightarrow>
      (\<forall>qs. extract_blocks blocks parts = Inr qs \<longrightarrow> (\<forall>q \<in> set qs. clean q)))"
proof (induction x and blocks parts rule: extract_text_content_extract_blocks.induct)
  case 1
  then show ?case by simp
next
  case (2 s)
  then show ?case by (auto simp: Let_def clean_strip split: if_splits)
next
  case (3 d)
  show ?case
  proof (cases "dict_get d ''type'' = PStr ''text''")
    case True
    then show ?thesis
      by (auto simp: Let_def clean_strip split: if_splits option.splits pyval.splits)
  next
    case False
    with 3 show ?thesis
      by (simp split: option.splits)
  qed
next
  case (4 blocks)
  show ?case
  proof (intro allI impI)
    fix t
    assume a: "extract_text_content (PList blocks) = Inr (Some t)"
    then obtain ps where ps: "extract_blocks blocks [] = Inr ps" "ps \<noteq> []"
      "t = strip (join ''\<newline>\<newline>'' ps)"
      by (auto split: sum.splits if_splits)
    from 4 ps(1) have "\<forall>q \<in> set ps. clean q" by simp
    with ps(2) have "clean (join ''\<newline>\<newline>'' ps)" by (rule clean_join)
    then show "clean t" using ps(3) by (simp add: strip_clean)
  qed
next
  case (5 i)
  then show ?case by simp
next
  case (6 c a)
  then show ?case by simp
next
  case (7 parts)
  then show ?case by simp
next
  case (8 block rest parts)
  show ?case
  proof (cases "extract_text_content block")
    case (Inl e)
    then show ?thesis by simp
  next
    case (Inr r)
    let ?parts' = "case r of Some t \<Rightarrow> if t \<noteq> [] then parts @ [t] else parts | None \<Rightarrow> parts"
    have step: "extract_blocks (block # rest) parts = extract_blocks rest ?parts'"
      using Inr by simp
    have ih: "(\<forall>p \<in> set ?parts'. clean p) \<longrightarrow>
      (\<forall>qs. extract_blocks rest ?parts' = Inr qs \<longrightarrow> (\<forall>q \<in> set qs. clean q))"
      using Inr by (rule 8(2))
    have keep: "(\<forall>p \<in> set parts. clean p) \<Longrightarrow> (\<forall>p \<in> set ?parts'. clean p)"
    proof (cases r)
      case None
      assume "\<forall>p \<in> set parts. clean p"
      then show ?thesis using None by simp
    next
      case (Some t)
      assume a: "\<forall>p \<in> set parts. clean p"
      from 8(1) Inr Some have "clean t" by simp
      with a show ?thesis using Some by simp
    qed
    show ?thesis unfolding step using ih keep by blast
  qed
qed

lemma extract_clean: "extract_text_content x = Inr (Some t) \<Longrightarrow> clean t"
  using extract_clean_aux(1) by blast

section \<open>Claims about the Content Normalizer\<close>

text \<open>
  Claim C8. On a plain string with some non-whitespace character the Normalizer returns
  the trimmed string, and on an empty or all-whitespace string it returns absent.
  Consequently the Normalizer is idempotent on its own results: whenever normalizing an
  input \<open>x\<close> yields a text \<open>t\<close>, normalizing \<open>t\<close> as a plain string yields \<open>t\<close> again.
\<close>

theorem normalizer_idempotent:
  "((\<exists>c \<in> set s. \<not> is_space c) \<longrightarrow> extract_text_content (PStr s) = Inr (Some (strip s))) \<and>
   ((\<forall>c \<in> set s. is_space c) \<longrightarrow> extract_text_content (PStr s) = Inr None) \<and>
   (extract_text_content x = Inr (Some t) \<longrightarrow> extract_text_content (PStr t) = Inr (Some t))"
proof (intro conjI impI)
  assume "\<exists>c \<in> set s. \<not> is_space c"
  then have "strip s \<noteq> []" by (simp add: strip_eq_Nil)
  then show "extract_text_content (PStr s) = Inr (Some (strip s))" by simp
next
  assume "\<forall>c \<in> set s. is_space c"
  then have "strip s = []" by (simp only: strip_eq_Nil)
  then show "extract_text_content (PStr s) = Inr None" by simp
next
  assume "extract_text_content x = Inr (Some t)"
  then have c: "clean t" by (rule extract_clean)
  then have "strip t = t" by (rule strip_clean)
  moreover from c have "t \<noteq> []" by (simp add: clean_def)
  ultimately show "extract_text_content (PStr t) = Inr (Some t)" by simp
qed

theorem normalizer_idempotent_witness:
  "(\<exists>c \<in> set ''  hi there  ''. \<not> is_space c) \<and>
   extract_text_content (PStr ''  hi there  '') = Inr (Some ''hi there'') \<and>
   extract_text_content (PStr [CHR '' '', CHR 0x09, CHR 0x0A]) = Inr None \<and>
   extract_text_content (PList [PStr '' a '', PNone, PDict [(''text'', PStr ''b '')]])
     = Inr (Some ''a\<newline>\<newline>b'') \<and>
   extract_text_content (PStr ''a\<newline>\<newline>b'') = Inr (Some ''a\<newline>\<newline>b'')"
proof -
  have h1: "\<exists>c \<in> set ''  hi there  ''. \<not> is_space c"
    by (simp add: is_space_def)
  have s1: "strip ''  hi there  '' = ''hi there''"
    by (simp add: strip_def is_space_def)
  have r1: "extract_text_content (PStr ''  hi there  '') = Inr (Some ''hi there'')"
    using normalizer_idempotent [of "''  hi there  ''" PNone "[]"] h1 unfolding s1 by blast
  have h2: "\<forall>c \<in> set [CHR '' '', CHR 0x09, CHR 0x0A]. is_space c"
    by (simp add: is_space_def)
  have r2: "extract_text_content (PStr [CHR '' '', CHR 0x09, CHR 0x0A]) = Inr None"
    using normalizer_idempotent [of "[CHR '' '', CHR 0x09, CHR 0x0A]" PNone "[]"] h2 by blast
  have h3: "extract_text_content (PList [PStr '' a '', PNone, PDict [(''text'', PStr ''b '')]])
     = Inr (Some ''a\<newline>\<newline>b'')"
    by (simp add: strip_def is_space_def dict_get_def)
  have r3: "extract_text_content (PStr ''a\<newline>\<newline>b'') = Inr (Some ''a\<newline>\<newline>b'')"
    using normalizer_idempotent
      [of "[]" "PList [PStr '' a '', PNone, PDict [(''text'', PStr ''b '')]]" "''a\<newline>\<newline>b''"] h3
    by blast
  show ?thesis by (rule conjI [OF h1 conjI [OF r1 conjI [OF r2 conjI [OF h3 r3]]]])
qed

lemma texts_mem: "t \<in> set (texts rs) \<Longrightarrow> Inr (Some t) \<in> set rs"
  by (induction rs rule: texts.induct) (auto split: if_splits)

lemma texts_extract_clean: "t \<in> set (texts (map extract_text_content blocks)) \<Longrightarrow> clean t"
proof -
  assume "t \<in> set (texts (map extract_text_content blocks))"
  then have "Inr (Some t) \<in> set (map extract_text_content blocks)" by (rule texts_mem)
  then obtain b where "extract_text_content b = Inr (Some t)" by auto
  then show "clean t" by (rule extract_clean)
qed

lemma strip_join_texts:
  assumes "texts (map extract_text_content blocks) \<noteq> []"
  shows "strip (join sep (texts (map extract_text_content blocks)))
           = join sep (texts (map extract_text_content blocks))"
proof -
  have "\<forall>p \<in> set (texts (map extract_text_content blocks)). clean p"
    using texts_extract_clean by blast
  with assms have "clean (join sep (texts (map extract_text_content blocks)))"
    by (rule clean_join)
  then show ?thesis by (rule strip_clean)
qed

lemma extract_list_eq:
  "extract_text_content (PList blocks) =
     (case first_error (map extract_text_content blocks) of
        Some e \<Rightarrow> Inl e
      | None \<Rightarrow>
          (let parts = texts (map extract_text_content blocks)
           in if parts = [] then Inr None else Inr (Some (join ''\<newline>\<newline>'' parts))))"
proof (cases "first_error (map extract_text_content blocks)")
  case None
  then have "extract_blocks blocks [] = Inr (texts (map extract_text_content blocks))"
    by (simp add: extract_blocks_eq)
  then show ?thesis using None
    by (simp add: Let_def strip_join_texts)
next
  case (Some e)
  then have "extract_blocks blocks [] = Inl e"
    by (simp add: extract_blocks_eq)
  then show ?thesis using Some by simp
qed

text \<open>
  How a sequence is normalized, in terms of the normalizations of its elements taken in
  order: when none of them raises, absent results (and empty strings) are discarded and
  the remaining texts are joined by a blank line, \<open>''\<newline>\<newline>''\<close>, and the result
  is absent when no text remains; when normalizing an element raises, normalizing the
  sequence raises the same exception (the first one in element order). In particular a
  sequence \<open>[a, n, b]\<close> whose elements normalize to the text \<open>ta\<close>, to absent and to
  the text \<open>tb\<close> normalizes to \<open>ta @ ''\<newline>\<newline>'' @ tb\<close>.
\<close>

lemma normalize_sequence:
  "extract_text_content (PList blocks) =
     (case first_error (map extract_text_content blocks) of
        Some e \<Rightarrow> Inl e
      | None \<Rightarrow>
          (let parts = texts (map extract_text_content blocks)
           in if parts = [] then Inr None else Inr (Some (join ''\<newline>\<newline>'' parts)))) \<and>
   (extract_text_content a = Inr (Some ta) \<and> extract_text_content n = Inr None \<and>
    extract_text_content b = Inr (Some tb) \<longrightarrow>
      extract_text_content (PList [a, n, b]) = Inr (Some (ta @ ''\<newline>\<newline>'' @ tb)))"
proof (intro conjI impI)
  show "extract_text_content (PList blocks) =
     (case first_error (map extract_text_content blocks) of
        Some e \<Rightarrow> Inl e
      | None \<Rightarrow>
          (let parts = texts (map extract_text_content blocks)
           in if parts = [] then Inr None else Inr (Some (join ''\<newline>\<newline>'' parts))))"
    by (rule extract_list_eq)
next
  assume h: "extract_text_content a = Inr (Some ta) \<and> extract_text_content n = Inr None \<and>
    extract_text_content b = Inr (Some tb)"
  then have "clean ta" "clean tb" by (auto intro: extract_clean)
  then have "ta \<noteq> []" "tb \<noteq> []" by (simp_all add: clean_def)
  with h show "extract_text_content (PList [a, n, b]) = Inr (Some (ta @ ''\<newline>\<newline>'' @ tb))"
    unfolding extract_list_eq by simp
qed

lemma normalize_sequence_witness:
  "extract_text_content (PStr '' first '') = Inr (Some ''first'') \<and>
   extract_text_content PNone = Inr None \<and>
   extract_text_content (PDict [(''type'', PStr ''text''), (''text'', PStr ''second'')])
     = Inr (Some ''second'') \<and>
   extract_text_content
     (PList [PStr '' first '', PNone, PDict [(''type'', PStr ''text''), (''text'', PStr ''second'')]])
     = Inr (Some ''first\<newline>\<newline>second'')"
proof -
  have a: "extract_text_content (PStr '' first '') = Inr (Some ''first'')"
    by (simp add: strip_def is_space_def)
  have n: "extract_text_content PNone = Inr None" by simp
  have b: "extract_text_content (PDict [(''type'', PStr ''text''), (''text'', PStr ''second'')])
     = Inr (Some ''second'')"
    by (simp add: strip_def is_space_def dict_get_def)
  have r: "extract_text_content
     (PList [PStr '' first '', PNone, PDict [(''type'', PStr ''text''), (''text'', PStr ''second'')]])
     = Inr (Some (''first'' @ ''\<newline>\<newline>'' @ ''second''))"
    using normalize_sequence
      [of "[]" "PStr '' first ''" "''first''" PNone
          "PDict [(''type'', PStr ''text''), (''text'', PStr ''second'')]" "''second''"]
      a n b
    by blast
  have e: "''first'' @ ''\<newline>\<newline>'' @ ''second'' = ''first\<newline>\<newline>second''" by simp
  show ?thesis by (rule conjI [OF a conjI [OF n conjI [OF b r [unfolded e]]]])
qed

text \<open>
  Claim C4 says that every sequence normalizes to the blank-line join of the texts its
  elements yield, and to absent when no element yields text. The sequence
  \<^verbatim>\<open>[{"type": "text", "text": None}]\<close> has no element that yields text, yet its
  normalization is not absent: normalizing the element raises (the defect of the tagged
  branch, \<^verbatim>\<open>message_content.get("text", "").strip()\<close> on a text field that is not a
  string), and the loop over the sequence lets the exception through. Likewise
  \<^verbatim>\<open>["a", {"type": "text", "text": None}, "b"]\<close> raises where the claim gives
  \<^verbatim>\<open>"a\n\nb"\<close>, which is what the same sequence gives when the record is not tagged.
\<close>

theorem normalize_sequence_raises:
  "texts (map extract_text_content [PDict [(''type'', PStr ''text''), (''text'', PNone)]]) = [] \<and>
   extract_text_content (PList [PDict [(''type'', PStr ''text''), (''text'', PNone)]])
     = Inl strip_attr_error \<and>
   extract_text_content
     (PList [PStr ''a'', PDict [(''type'', PStr ''text''), (''text'', PNone)], PStr ''b''])
     = Inl strip_attr_error \<and>
   extract_text_content (PList [PStr ''a'', PDict [(''text'', PNone)], PStr ''b''])
     = Inr (Some ''a\<newline>\<newline>b'')"
  by (simp add: dict_get_def strip_def is_space_def)

text \<open>
  What the Normalizer does on a keyed record, where it returns: under the tag
  \<^verbatim>\<open>"text"\<close> a missing text field gives absent and a string gives its trimmed value
  (absent when that is empty); without the tag the keys \<^verbatim>\<open>content\<close>, \<^verbatim>\<open>text\<close>,
  \<^verbatim>\<open>value\<close> are probed in this order and the value of the first key present is
  normalized, whatever the result.
\<close>

lemma extract_record_tagged:
  assumes "dict_get d ''type'' = PStr ''text''"
  shows "map_of d ''text'' = None \<Longrightarrow> extract_text_content (PDict d) = Inr None"
    and "map_of d ''text'' = Some (PStr s) \<Longrightarrow>
           extract_text_content (PDict d) = Inr (if strip s = [] then None else Some (strip s))"
  using assms by (simp_all add: strip_def)

lemma extract_record_untagged:
  assumes "dict_get d ''type'' \<noteq> PStr ''text''"
  shows "map_of d ''content'' = Some v \<Longrightarrow>
           extract_text_content (PDict d) = extract_text_content v"
    and "map_of d ''content'' = None \<Longrightarrow> map_of d ''text'' = Some v \<Longrightarrow>
           extract_text_content (PDict d) = extract_text_content v"
    and "map_of d ''content'' = None \<Longrightarrow> map_of d ''text'' = None \<Longrightarrow>
         map_of d ''value'' = Some v \<Longrightarrow>
           extract_text_content (PDict d) = extract_text_content v"
    and "map_of d ''content'' = None \<Longrightarrow> map_of d ''text'' = None \<Longrightarrow>
         map_of d ''value'' = None \<Longrightarrow> extract_text_content (PDict d) = Inr None"
  using assms by simp_all

text \<open>
  Claim C3 says that every keyed record tagged \<^verbatim>\<open>"text"\<close> normalizes to the trimmed
  value of its text field, or to absent. The record \<^verbatim>\<open>{"type": "text", "text": None}\<close>
  does not: \<^verbatim>\<open>message_content.get("text", "")\<close> is \<^verbatim>\<open>None\<close>, which has no
  \<^verbatim>\<open>strip\<close>, and the call raises. The same holds for a text field that is itself a
  record, \<^verbatim>\<open>{"type": "text", "text": {"value": "Hello"}}\<close>. Without the tag the
  same fields are handled: \<^verbatim>\<open>{"text": None}\<close> normalizes to absent and
  \<^verbatim>\<open>{"text": {"value": "Hello"}}\<close> to \<^verbatim>\<open>"Hello"\<close>.
\<close>

theorem normalize_record_text_not_string:
  "extract_text_content (PDict [(''type'', PStr ''text''), (''text'', PNone)])
     = Inl strip_attr_error \<and>
   extract_text_content
     (PDict [(''type'', PStr ''text''), (''text'', PDict [(''value'', PStr ''Hello'')])])
     = Inl strip_attr_error \<and>
   extract_text_content (PDict [(''text'', PNone)]) = Inr None \<and>
   extract_text_content (PDict [(''text'', PDict [(''value'', PStr ''Hello'')])])
     = Inr (Some ''Hello'')"
  by (simp add: dict_get_def strip_def is_space_def)

section \<open>Claims about the Response Assembler\<close>

lemma candidate_clean: "candidate ev = Some t \<Longrightarrow> clean t"
  by (auto simp: candidate_def split: if_splits sum.splits option.splits intro: extract_clean)

lemma candidates_clean: "t \<in> set (candidates evs) \<Longrightarrow> clean t"
  by (induction evs) (auto split: option.splits dest: candidate_clean)

lemma loop_step:
  assumes "\<not> event_raises ev"
  shows "get_response_loop (ev # evs) fr =
           get_response_loop evs (case candidate ev of Some t \<Rightarrow> Some t | None \<Rightarrow> fr)"
proof (cases "event_messages ev = []")
  case True
  then show ?thesis by (simp add: candidate_def)
next
  case False
  with assms obtain r where
    r: "extract_text_content (raw_content_of (last (event_messages ev))) = Inr r"
    by (auto simp: event_raises_def isl_def) (metis sum.exhaust)
  show ?thesis
  proof (cases r)
    case None
    with r False show ?thesis by (simp add: candidate_def Let_def)
  next
    case (Some t)
    with r have "clean t" by (auto intro: extract_clean)
    then have "t \<noteq> []" by (simp add: clean_def)
    with r Some False show ?thesis by (simp add: candidate_def Let_def)
  qed
qed

lemma loop_candidates:
  "\<forall>ev \<in> set evs. \<not> event_raises ev \<Longrightarrow>
   get_response_loop evs fr =
     Inr (if candidates evs = [] then fr else Some (last (candidates evs)))"
proof (induction evs arbitrary: fr)
  case Nil
  then show ?case by simp
next
  case (Cons ev evs)
  then have ev: "\<not> event_raises ev" and evs: "\<forall>ev \<in> set evs. \<not> event_raises ev"
    by simp_all
  show ?case
    unfolding loop_step [OF ev] Cons.IH [OF evs]
    by (cases "candidate ev") simp_all
qed

lemma loop_raises:
  "event_raises ev \<Longrightarrow> \<exists>e. get_response_loop (ev # evs) fr = Inl e"
  by (auto simp: event_raises_def Let_def isl_def)

lemma extract_Inl: "extract_text_content x = Inl e \<Longrightarrow> e = strip_attr_error"
  and extract_blocks_Inl: "extract_blocks blocks parts = Inl e \<Longrightarrow> e = strip_attr_error"
proof (induction x and blocks parts rule: extract_text_content_extract_blocks.induct)
  case (3 d)
  then show ?case
    by (cases "dict_get d ''type'' = PStr ''text''")
       (auto simp: Let_def split: option.splits pyval.splits if_splits)
next
  case (4 blocks)
  then show ?case by (auto split: sum.splits if_splits)
next
  case (8 block rest parts)
  then show ?case by (cases "extract_text_content block") auto
qed (auto simp: Let_def)

lemma loop_Inl: "get_response_loop evs fr = Inl e \<Longrightarrow> e = strip_attr_error"
proof (induction evs arbitrary: fr)
  case Nil
  then show ?case by simp
next
  case (Cons ev evs)
  show ?case
  proof (cases "event_messages ev = []")
    case True
    with Cons show ?thesis by simp
  next
    case False
    show ?thesis
    proof (cases "extract_text_content (raw_content_of (last (event_messages ev)))")
      case (Inl e')
      with False Cons.prems show ?thesis by (simp add: Let_def extract_Inl)
    next
      case (Inr r)
      with False Cons.prems show ?thesis by (simp add: Let_def) (erule Cons.IH)
    qed
  qed
qed

text \<open>
  Claim C1 says that for every finite stream consumed to its end \<^verbatim>\<open>get_response\<close>
  returns the last candidate, or the fallback apology when there is none. On the stream
  of two events whose most recent messages are \<^verbatim>\<open>AIMessage(content="draft")\<close> and
  \<^verbatim>\<open>AIMessage(content=[{"type": "text", "text": None}])\<close> the only candidate is
  \<^verbatim>\<open>"draft"\<close>, but the code returns the generic error apology: normalizing the
  second content raises (the defect of the Normalizer's tagged branch) inside the
  \<^verbatim>\<open>try\<close> block. On the second event alone there is no candidate and the code
  returns the generic error apology instead of the fallback apology. With the untagged
  content \<^verbatim>\<open>[{"text": None}]\<close> in its place the result is \<^verbatim>\<open>"draft"\<close>, as claimed.
\<close>

theorem assembler_defect_generic_apology:
  "strip ''hi'' \<noteq> [] \<and>
   candidates
     [[(''messages'', [PObj ''AIMessage'' [(''type'', PStr ''ai''), (''content'', PStr ''draft'')]])],
      [(''messages'', [PObj ''AIMessage'' [(''type'', PStr ''ai''),
          (''content'', PList [PDict [(''type'', PStr ''text''), (''text'', PNone)]])]])]]
     = [''draft''] \<and>
   get_response ''hi''
     ([[(''messages'', [PObj ''AIMessage'' [(''type'', PStr ''ai''), (''content'', PStr ''draft'')]])],
       [(''messages'', [PObj ''AIMessage'' [(''type'', PStr ''ai''),
          (''content'', PList [PDict [(''type'', PStr ''text''), (''text'', PNone)]])]])]],
      Exhausted)
     = ''I apologize, but I encountered an error processing your request. Please try again or rephrase your question.'' \<and>
   candidates
     [[(''messages'', [PObj ''AIMessage'' [(''type'', PStr ''ai''),
          (''content'', PList [PDict [(''type'', PStr ''text''), (''text'', PNone)]])]])]]
     = [] \<and>
   get_response ''hi''
     ([[(''messages'', [PObj ''AIMessage'' [(''type'', PStr ''ai''),
          (''content'', PList [PDict [(''type'', PStr ''text''), (''text'', PNone)]])]])]],
      Exhausted)
     = ''I apologize, but I encountered an error processing your request. Please try again or rephrase your question.'' \<and>
   get_response ''hi''
     ([[(''messages'', [PObj ''AIMessage'' [(''type'', PStr ''ai''), (''content'', PStr ''draft'')]])],
       [(''messages'', [PObj ''AIMessage'' [(''type'', PStr ''ai''),
          (''content'', PList [PDict [(''text'', PNone)]])]])]],
      Exhausted)
     = ''draft''"
  by (simp add: get_response_def get_response_try_def candidate_def event_messages_def
        is_ai_message_def dict_get_def strip_def is_space_def strip_attr_error_def)

text \<open>
  On the streams that the defect does not touch the assembler returns what is asked of
  it. For a non-blank user message and a finite stream that ends normally and in which
  normalizing the content of no event's most recent message raises, \<^verbatim>\<open>get_response\<close>
  returns the last candidate of the stream: the normalized text of the most recent message
  of the last event whose most recent message is assistant-authored and normalizes to a
  text. Events without messages offer no candidate. When the stream has no candidate the
  fixed fallback apology is returned. The result is never the empty string.
\<close>

lemma assembler_last_candidate:
  assumes "strip user_message \<noteq> []"
    and "\<forall>ev \<in> set evs. \<not> event_raises ev"
  shows "get_response user_message (evs, Exhausted) =
           (if candidates evs = []
            then ''I apologize, but I couldn't generate a response. Please try rephrasing your question or ask something else.''
            else last (candidates evs)) \<and>
         get_response user_message (evs, Exhausted) \<noteq> []"
proof -
  from assms(1) have um: "user_message \<noteq> []" by (auto simp: strip_def)
  have loop: "get_response_loop evs None =
      Inr (if candidates evs = [] then None else Some (last (candidates evs)))"
    using assms(2) by (rule loop_candidates)
  show ?thesis
  proof (cases "candidates evs = []")
    case True
    with loop um assms(1) show ?thesis
      by (simp add: get_response_def get_response_try_def)
  next
    case False
    then have "last (candidates evs) \<in> set (candidates evs)" by simp
    then have "clean (last (candidates evs))" by (rule candidates_clean)
    then have "last (candidates evs) \<noteq> []" by (simp add: clean_def)
    with False loop um assms(1) show ?thesis
      by (simp add: get_response_def get_response_try_def)
  qed
qed

lemma assembler_last_candidate_witness:
  "strip ''What is diabetes?'' \<noteq> [] \<and>
   \<not> event_raises [(''messages'', [PObj ''AIMessage'' [(''type'', PStr ''ai''), (''content'', PStr ''draft'')]])] \<and>
   \<not> event_raises [(''messages'', [PObj ''ToolMessage'' [(''type'', PStr ''tool''), (''content'', PStr ''Source: Unknown'')]])] \<and>
   \<not> event_raises [] \<and>
   \<not> event_raises [(''messages'', [PDict [(''role'', PStr ''assistant''),
        (''content'', PList [PDict [(''type'', PStr ''text''), (''text'', PStr '' final '')]])]])] \<and>
   get_response ''What is diabetes?''
     ([[(''messages'', [PObj ''AIMessage'' [(''type'', PStr ''ai''), (''content'', PStr ''draft'')]])],
       [(''messages'', [PObj ''ToolMessage'' [(''type'', PStr ''tool''), (''content'', PStr ''Source: Unknown'')]])],
       [],
       [(''messages'', [PDict [(''role'', PStr ''assistant''),
          (''content'', PList [PDict [(''type'', PStr ''text''), (''text'', PStr '' final '')]])]])]],
      Exhausted) = ''final''"
proof -
  let ?e1 = "[(''messages'', [PObj ''AIMessage'' [(''type'', PStr ''ai''), (''content'', PStr ''draft'')]])]"
  let ?e2 = "[(''messages'', [PObj ''ToolMessage'' [(''type'', PStr ''tool''), (''content'', PStr ''Source: Unknown'')]])]"
  let ?e3 = "[] :: event"
  let ?e4 = "[(''messages'', [PDict [(''role'', PStr ''assistant''),
        (''content'', PList [PDict [(''type'', PStr ''text''), (''text'', PStr '' final '')]])]])]"
  have um: "strip ''What is diabetes?'' \<noteq> []"
    by (simp add: strip_def is_space_def)
  have r1: "\<not> event_raises ?e1"
    by (simp add: event_raises_def event_messages_def Let_def)
  have r2: "\<not> event_raises ?e2"
    by (simp add: event_raises_def event_messages_def Let_def)
  have r3: "\<not> event_raises ?e3"
    by (simp add: event_raises_def event_messages_def Let_def)
  have r4: "\<not> event_raises ?e4"
    by (simp add: event_raises_def event_messages_def dict_get_def Let_def)
  have all: "\<forall>ev \<in> set [?e1, ?e2, ?e3, ?e4]. \<not> event_raises ev"
    using r1 r2 r3 r4 by simp
  have tool: "\<not> contains ''aimessage'' (lower ''ToolMessage'')" by code_simp
  have c1: "candidate ?e1 = Some ''draft''"
    by (simp add: candidate_def event_messages_def is_ai_message_def strip_def is_space_def)
  have c2: "candidate ?e2 = None"
    using tool by (simp add: candidate_def event_messages_def is_ai_message_def)
  have c3: "candidate ?e3 = None"
    by (simp add: candidate_def event_messages_def)
  have c4: "candidate ?e4 = Some ''final''"
    by (simp add: candidate_def event_messages_def is_ai_message_def dict_get_def
          strip_def is_space_def)
  have cs: "candidates [?e1, ?e2, ?e3, ?e4] = [''draft'', ''final'']"
    by (simp only: candidates.simps c1 c2 c3 c4 option.case)
  have g: "get_response ''What is diabetes?'' ([?e1, ?e2, ?e3, ?e4], Exhausted) = ''final''"
    using assembler_last_candidate [OF um all] unfolding cs by simp
  show ?thesis by (rule conjI [OF um conjI [OF r1 conjI [OF r2 conjI [OF r3 conjI [OF r4 g]]]]])
qed

lemma get_response_handler:
  "get_response_try user_message stream = Inl e \<Longrightarrow>
   get_response user_message stream =
     (if is_timeout e
      then ''The request timed out. Please try again with a shorter question.''
      else ''I apologize, but I encountered an error processing your request. Please try again or rephrase your question.'')"
  by (cases e) (simp_all add: get_response_def)

lemma try_stream_raises:
  assumes "strip user_message \<noteq> []"
  shows "\<exists>e'. get_response_try user_message (evs, Raises e) = Inl e' \<and>
           (e' = e \<or> (e' = strip_attr_error \<and> (\<exists>ev \<in> set evs. event_raises ev)))"
proof -
  from assms have um: "user_message \<noteq> []" by (auto simp: strip_def)
  show ?thesis
  proof (cases "\<exists>ev \<in> set evs. event_raises ev")
    case False
    then have "get_response_loop evs None =
        Inr (if candidates evs = [] then None else Some (last (candidates evs)))"
      by (intro loop_candidates) simp
    with um assms show ?thesis by (simp add: get_response_try_def)
  next
    case True
    show ?thesis
    proof (cases "get_response_loop evs None")
      case (Inl e')
      then have "e' = strip_attr_error" by (rule loop_Inl)
      with Inl True um assms show ?thesis by (simp add: get_response_try_def)
    next
      case (Inr r)
      with um assms show ?thesis by (simp add: get_response_try_def)
    qed
  qed
qed

text \<open>
  Claim C2. \<^verbatim>\<open>get_response\<close> returns a string on every input: whatever exception the
  \<^verbatim>\<open>try\<close> block raises is turned into one of two fixed strings. When the stream raises
  a \<^verbatim>\<open>TimeoutError\<close> (after events that were processed without failure) the result is
  the timeout string; when the stream raises any other exception the result is the generic
  apology. The user message is not blank, so that the stream is consumed at all.
\<close>

theorem get_response_never_raises:
  "(get_response_try user_message stream = Inl e \<longrightarrow>
      get_response user_message stream \<in>
        {''The request timed out. Please try again with a shorter question.'',
         ''I apologize, but I encountered an error processing your request. Please try again or rephrase your question.''}) \<and>
   (strip user_message \<noteq> [] \<and> (\<forall>ev \<in> set evs. \<not> event_raises ev) \<longrightarrow>
      get_response user_message (evs, Raises (TimeoutError m)) =
        ''The request timed out. Please try again with a shorter question.'') \<and>
   (strip user_message \<noteq> [] \<and> \<not> is_timeout e' \<longrightarrow>
      get_response user_message (evs, Raises e') =
        ''I apologize, but I encountered an error processing your request. Please try again or rephrase your question.'')"
proof (intro conjI impI)
  assume "get_response_try user_message stream = Inl e"
  then show "get_response user_message stream \<in>
        {''The request timed out. Please try again with a shorter question.'',
         ''I apologize, but I encountered an error processing your request. Please try again or rephrase your question.''}"
    by (simp add: get_response_handler del: insert_iff) simp
next
  assume h: "strip user_message \<noteq> [] \<and> (\<forall>ev \<in> set evs. \<not> event_raises ev)"
  then obtain x where "get_response_try user_message (evs, Raises (TimeoutError m)) = Inl x"
    and "x = TimeoutError m"
    using try_stream_raises [of user_message evs "TimeoutError m"] by blast
  then show "get_response user_message (evs, Raises (TimeoutError m)) =
        ''The request timed out. Please try again with a shorter question.''"
    by (simp add: get_response_handler)
next
  assume h: "strip user_message \<noteq> [] \<and> \<not> is_timeout e'"
  then obtain x where x: "get_response_try user_message (evs, Raises e') = Inl x"
    and "x = e' \<or> x = strip_attr_error"
    using try_stream_raises [of user_message evs e'] by blast
  with h have "\<not> is_timeout x" by (auto simp: strip_attr_error_def)
  with x show "get_response user_message (evs, Raises e') =
        ''I apologize, but I encountered an error processing your request. Please try again or rephrase your question.''"
    by (simp add: get_response_handler)
qed

theorem get_response_never_raises_witness:
  "get_response_try ''hi'' ([], Raises (OtherException ''connection reset'')) =
     Inl (OtherException ''connection reset'') \<and>
   strip ''hi'' \<noteq> [] \<and>
   \<not> event_raises [(''messages'', [PObj ''AIMessage'' [(''type'', PStr ''ai''), (''content'', PStr ''draft'')]])] \<and>
   \<not> is_timeout (OtherException ''connection reset'') \<and>
   get_response ''hi''
     ([[(''messages'', [PObj ''AIMessage'' [(''type'', PStr ''ai''), (''content'', PStr ''draft'')]])]],
      Raises (TimeoutError ''deadline exceeded''))
     = ''The request timed out. Please try again with a shorter question.'' \<and>
   get_response ''hi''
     ([[(''messages'', [PObj ''AIMessage'' [(''type'', PStr ''ai''), (''content'', PStr ''draft'')]])]],
      Raises (OtherException ''connection reset''))
     = ''I apologize, but I encountered an error processing your request. Please try again or rephrase your question.'' \<and>
   get_response ''hi'' ([], Raises (OtherException ''connection reset'')) \<in>
     {''The request timed out. Please try again with a shorter question.'',
      ''I apologize, but I encountered an error processing your request. Please try again or rephrase your question.''}"
proof -
  let ?e1 = "[(''messages'', [PObj ''AIMessage'' [(''type'', PStr ''ai''), (''content'', PStr ''draft'')]])]"
  have um: "strip ''hi'' \<noteq> []" by (simp add: strip_def is_space_def)
  have t: "get_response_try ''hi'' ([], Raises (OtherException ''connection reset'')) =
     Inl (OtherException ''connection reset'')"
    using um by (simp add: get_response_try_def)
  have r1: "\<not> event_raises ?e1"
    by (simp add: event_raises_def event_messages_def Let_def)
  have nt: "\<not> is_timeout (OtherException ''connection reset'')" by simp
  have all: "\<forall>ev \<in> set [?e1]. \<not> event_raises ev" using r1 by simp
  note inst = get_response_never_raises
    [of "''hi''" "([], Raises (OtherException ''connection reset''))"
        "OtherException ''connection reset''" "[?e1]" "''deadline exceeded''"
        "OtherException ''connection reset''"]
  have a: "get_response ''hi'' ([], Raises (OtherException ''connection reset'')) \<in>
     {''The request timed out. Please try again with a shorter question.'',
      ''I apologize, but I encountered an error processing your request. Please try again or rephrase your question.''}"
    using inst t by blast
  have b: "get_response ''hi'' ([?e1], Raises (TimeoutError ''deadline exceeded''))
     = ''The request timed out. Please try again with a shorter question.''"
    using inst um all by blast
  have c: "get_response ''hi'' ([?e1], Raises (OtherException ''connection reset''))
     = ''I apologize, but I encountered an error processing your request. Please try again or rephrase your question.''"
    using inst um nt by blast
  show ?thesis
    by (rule conjI [OF t conjI [OF um conjI [OF r1 conjI [OF nt conjI [OF b conjI [OF c a]]]]]])
qed

text \<open>
  Claim C5, as stated, applies the class-name fallback only to a message that carries no
  discriminator, and never to one whose discriminator has another value such as
  \<^verbatim>\<open>"tool"\<close>. The code enters the fallback whenever the discriminator is neither
  \<^verbatim>\<open>'ai'\<close> nor \<^verbatim>\<open>'assistant'\<close>: an \<^verbatim>\<open>AIMessageChunk\<close> object, whose
  \<^verbatim>\<open>type\<close> is \<^verbatim>\<open>"AIMessageChunk"\<close>, is classified as assistant-authored, and so
  is an object of class \<^verbatim>\<open>AIMessage\<close> whose \<^verbatim>\<open>type\<close> is \<^verbatim>\<open>"tool"\<close>.
\<close>

theorem classification_fallback_counterexample:
  "message_type_of
     (PObj ''AIMessageChunk'' [(''type'', PStr ''AIMessageChunk''), (''content'', PStr ''partial'')])
     = PStr ''AIMessageChunk'' \<and>
   is_ai_message
     (PObj ''AIMessageChunk'' [(''type'', PStr ''AIMessageChunk''), (''content'', PStr ''partial'')]) \<and>
   message_type_of (PObj ''AIMessage'' [(''type'', PStr ''tool''), (''content'', PStr ''x'')])
     = PStr ''tool'' \<and>
   is_ai_message (PObj ''AIMessage'' [(''type'', PStr ''tool''), (''content'', PStr ''x'')])"
proof -
  have a: "contains ''aimessage'' (lower ''AIMessageChunk'')" by code_simp
  have b: "contains ''aimessage'' (lower ''AIMessage'')" by code_simp
  show ?thesis using a b by (simp add: is_ai_message_def)
qed

lemma contains_longer: "length s < length sub \<Longrightarrow> \<not> contains sub s"
proof
  assume l: "length s < length sub" and "contains sub s"
  then obtain i where "prefix sub (drop i s)" by (auto simp: contains_def)
  then have "length sub \<le> length (drop i s)" by (rule prefix_length_le)
  with l show False by simp
qed

text \<open>
  Claim C5, amended. A message is classified as assistant-authored exactly when its
  role/type discriminator equals \<^verbatim>\<open>"ai"\<close> or \<^verbatim>\<open>"assistant"\<close>, or its class name,
  in lower case, contains \<^verbatim>\<open>aimessage\<close>; the class name is consulted whenever the
  discriminator has any other value, present or not. The discriminator of an object is its
  \<^verbatim>\<open>type\<close> attribute; that of a dictionary is its \<^verbatim>\<open>type\<close> entry or, when that is
  missing or false, its \<^verbatim>\<open>role\<close> entry. For a message that is not an object (a
  dictionary, a string, a number, a list, \<^verbatim>\<open>None\<close>) the class name never
  indicates an AI message, so only the discriminator decides.
\<close>

theorem classification_by_type_or_class:
  "is_ai_message msg =
     (message_type_of msg = PStr ''ai'' \<or> message_type_of msg = PStr ''assistant'' \<or>
      contains ''aimessage'' (lower (class_name msg))) \<and>
   is_ai_message (PObj c a) =
     (map_of a ''type'' = Some (PStr ''ai'') \<or> map_of a ''type'' = Some (PStr ''assistant'') \<or>
      contains ''aimessage'' (lower c)) \<and>
   is_ai_message (PDict d) =
     (message_type_of (PDict d) = PStr ''ai'' \<or> message_type_of (PDict d) = PStr ''assistant'') \<and>
   is_ai_message (PStr s) = False \<and> is_ai_message (PInt i) = False \<and>
   is_ai_message (PList xs) = False \<and> is_ai_message PNone = False"
proof -
  have n: "\<not> contains ''aimessage'' (lower ''dict'')" "\<not> contains ''aimessage'' (lower ''str'')"
    "\<not> contains ''aimessage'' (lower ''int'')" "\<not> contains ''aimessage'' (lower ''list'')"
    "\<not> contains ''aimessage'' (lower ''NoneType'')"
    by (rule contains_longer, simp add: lower_def)+
  have 1: "is_ai_message msg =
     (message_type_of msg = PStr ''ai'' \<or> message_type_of msg = PStr ''assistant'' \<or>
      contains ''aimessage'' (lower (class_name msg)))" for msg
    by (auto simp: is_ai_message_def Let_def)
  have 2: "is_ai_message (PObj c a) =
     (map_of a ''type'' = Some (PStr ''ai'') \<or> map_of a ''type'' = Some (PStr ''assistant'') \<or>
      contains ''aimessage'' (lower c))"
    unfolding 1 by (auto split: option.splits)
  have 3: "is_ai_message (PDict d) =
     (message_type_of (PDict d) = PStr ''ai'' \<or> message_type_of (PDict d) = PStr ''assistant'')"
    unfolding 1 using n by simp
  have 4: "is_ai_message (PStr s) = False" "is_ai_message (PInt i) = False"
    "is_ai_message (PList xs) = False" "is_ai_message PNone = False"
    unfolding 1 using n by simp_all
  show ?thesis by (intro conjI 1 2 3 4)
qed

section \<open>Claims about the Retrieval Tool Adapter\<close>

lemma format_doc_string_source:
  "map_of (metadata doc) ''source'' = Some (PStr s) \<Longrightarrow>
   format_doc py_str doc = ''Source: '' @ s @ ''\<newline>Content: '' @ page_content doc"
  by (simp add: format_doc_def format_value_def metadata_source_def)

text \<open>
  Claim C6. The retrieval tool never raises and has three failure-like outcomes, each
  with an empty passage sequence: without a vector store the fixed string
  \<^verbatim>\<open>"Knowledge base is not available."\<close>; when the similarity search (for the top 3)
  returns no passage the fixed string
  \<^verbatim>\<open>"No relevant medical information found in the knowledge base."\<close>; when the search
  raises, the string \<^verbatim>\<open>"Error accessing knowledge base: "\<close> followed by the exception's
  message. The three strings are pairwise different. When the search returns passages,
  each is formatted as \<^verbatim>\<open>"Source: {source}\nContent: {content}"\<close>, the formatted
  passages are joined by a blank line, and the passages are returned with the text.
\<close>

theorem retrieve_outcomes:
  "retrieve_medical_context py_str None query = (''Knowledge base is not available.'', []) \<and>
   (similarity_search query 3 = Inr [] \<longrightarrow>
      retrieve_medical_context py_str (Some similarity_search) query =
        (''No relevant medical information found in the knowledge base.'', [])) \<and>
   (similarity_search query 3 = Inl e \<longrightarrow>
      retrieve_medical_context py_str (Some similarity_search) query =
        (''Error accessing knowledge base: '' @ exc_str e, [])) \<and>
   (similarity_search query 3 = Inr docs \<and> docs \<noteq> [] \<longrightarrow>
      retrieve_medical_context py_str (Some similarity_search) query =
        (join ''\<newline>\<newline>''
           (map (\<lambda>doc. ''Source: '' @ format_value py_str (metadata_source doc) @
                        ''\<newline>Content: '' @ page_content doc) docs),
         docs)) \<and>
   ''Knowledge base is not available.'' \<noteq>
     ''No relevant medical information found in the knowledge base.'' \<and>
   ''Error accessing knowledge base: '' @ exc_str e' \<noteq> ''Knowledge base is not available.'' \<and>
   ''Error accessing knowledge base: '' @ exc_str e' \<noteq>
     ''No relevant medical information found in the knowledge base.''"
proof -
  have "format_doc py_str =
      (\<lambda>doc. ''Source: '' @ format_value py_str (metadata_source doc) @
                        ''\<newline>Content: '' @ page_content doc)"
    by (rule ext) (simp add: format_doc_def)
  then show ?thesis
    by (simp add: retrieve_medical_context_def)
qed

theorem retrieve_outcomes_witness:
  "(\<lambda>q k. Inr []) ''fever'' (3::int) = (Inr [] :: py_exc + document list) \<and>
   retrieve_medical_context (\<lambda>v. ''None'') (Some (\<lambda>q k. Inr [])) ''fever'' =
     (''No relevant medical information found in the knowledge base.'', []) \<and>
   retrieve_medical_context (\<lambda>v. ''None'')
       (Some (\<lambda>q k. Inl (OtherException ''connection refused''))) ''fever'' =
     (''Error accessing knowledge base: connection refused'', []) \<and>
   retrieve_medical_context (\<lambda>v. ''None'')
       (Some (\<lambda>q k. Inr [\<lparr>metadata = [(''source'', PStr ''book.pdf'')], page_content = ''Fever is a rise.''\<rparr>,
                          \<lparr>metadata = [], page_content = ''Rest.''\<rparr>])) ''fever'' =
     (''Source: book.pdf\<newline>Content: Fever is a rise.\<newline>\<newline>Source: Unknown\<newline>Content: Rest.'',
      [\<lparr>metadata = [(''source'', PStr ''book.pdf'')], page_content = ''Fever is a rise.''\<rparr>,
       \<lparr>metadata = [], page_content = ''Rest.''\<rparr>])"
proof -
  let ?d1 = "\<lparr>metadata = [(''source'', PStr ''book.pdf'')], page_content = ''Fever is a rise.''\<rparr>"
  let ?d2 = "\<lparr>metadata = [], page_content = ''Rest.''\<rparr>"
  have h0: "(\<lambda>q k. Inr []) ''fever'' (3::int) = (Inr [] :: py_exc + document list)" by simp
  have a: "retrieve_medical_context (\<lambda>v. ''None'') (Some (\<lambda>q k. Inr [])) ''fever'' =
     (''No relevant medical information found in the knowledge base.'', [])"
    using retrieve_outcomes [of "\<lambda>v. ''None''" "''fever''" "\<lambda>q k. Inr []" "OtherException []" "[]" "OtherException []"] h0
    by blast
  have b: "retrieve_medical_context (\<lambda>v. ''None'')
       (Some (\<lambda>q k. Inl (OtherException ''connection refused''))) ''fever'' =
     (''Error accessing knowledge base: '' @ exc_str (OtherException ''connection refused''), [])"
    using retrieve_outcomes [of "\<lambda>v. ''None''" "''fever''"
        "\<lambda>q k. Inl (OtherException ''connection refused'')" "OtherException ''connection refused''"
        "[]" "OtherException []"]
    by blast
  have c: "retrieve_medical_context (\<lambda>v. ''None'') (Some (\<lambda>q k. Inr [?d1, ?d2])) ''fever'' =
     (join ''\<newline>\<newline>''
           (map (\<lambda>doc. ''Source: '' @ format_value (\<lambda>v. ''None'') (metadata_source doc) @
                        ''\<newline>Content: '' @ page_content doc) [?d1, ?d2]),
         [?d1, ?d2])"
    using retrieve_outcomes [of "\<lambda>v. ''None''" "''fever''" "\<lambda>q k. Inr [?d1, ?d2]" "OtherException []"
        "[?d1, ?d2]" "OtherException []"]
    by blast
  have e1: "''Error accessing knowledge base: '' @ exc_str (OtherException ''connection refused'')
     = ''Error accessing knowledge base: connection refused''" by simp
  have e2: "join ''\<newline>\<newline>''
           (map (\<lambda>doc. ''Source: '' @ format_value (\<lambda>v. ''None'') (metadata_source doc) @
                        ''\<newline>Content: '' @ page_content doc) [?d1, ?d2])
     = ''Source: book.pdf\<newline>Content: Fever is a rise.\<newline>\<newline>Source: Unknown\<newline>Content: Rest.''"
    by (simp add: format_value_def metadata_source_def)
  show ?thesis
    by (rule conjI [OF h0 conjI [OF a conjI [OF b [unfolded e1] c [unfolded e2]]]])
qed

text \<open>
  Claim C7. \<^verbatim>\<open>get_relevant_sources(query, k)\<close> returns one entry per passage of the
  search, in order. The content of an entry is the first 200 characters of the passage
  followed by \<^verbatim>\<open>"..."\<close>, 203 characters in all, when the passage is longer than 200
  characters, and the passage unchanged otherwise; a passage of 250 characters gives a
  content of exactly 203. When the search raises (or there is no vector store to search)
  the result is the empty sequence.
\<close>

theorem sources_truncated:
  "(similarity_search query k = Inr docs \<longrightarrow>
      length (get_relevant_sources (Some similarity_search) query k) = length docs \<and>
      (\<forall>i < length docs.
         (200 < length (page_content (docs ! i)) \<longrightarrow>
            content (get_relevant_sources (Some similarity_search) query k ! i) =
              take 200 (page_content (docs ! i)) @ ''...'' \<and>
            length (content (get_relevant_sources (Some similarity_search) query k ! i)) = 203) \<and>
         (length (page_content (docs ! i)) \<le> 200 \<longrightarrow>
            content (get_relevant_sources (Some similarity_search) query k ! i) =
              page_content (docs ! i)))) \<and>
   (length (page_content doc) = 250 \<longrightarrow> length (content (source_of_doc doc)) = 203) \<and>
   (similarity_search query k = Inl e \<longrightarrow>
      get_relevant_sources (Some similarity_search) query k = []) \<and>
   get_relevant_sources None query k = []"
  by (simp add: get_relevant_sources_def source_of_doc_def)

theorem sources_truncated_witness:
  "(\<lambda>q k. Inr [\<lparr>metadata = [], page_content = replicate 250 (CHR ''a'')\<rparr>,
                \<lparr>metadata = [], page_content = ''short''\<rparr>]) ''diabetes'' (3::int)
     = (Inr [\<lparr>metadata = [], page_content = replicate 250 (CHR ''a'')\<rparr>,
             \<lparr>metadata = [], page_content = ''short''\<rparr>] :: py_exc + document list) \<and>
   length (page_content \<lparr>metadata = [], page_content = replicate 250 (CHR ''a'')\<rparr>) = 250 \<and>
   content (get_relevant_sources
       (Some (\<lambda>q k. Inr [\<lparr>metadata = [], page_content = replicate 250 (CHR ''a'')\<rparr>,
                          \<lparr>metadata = [], page_content = ''short''\<rparr>])) ''diabetes'' 3 ! 0)
     = replicate 200 (CHR ''a'') @ ''...'' \<and>
   length (content (get_relevant_sources
       (Some (\<lambda>q k. Inr [\<lparr>metadata = [], page_content = replicate 250 (CHR ''a'')\<rparr>,
                          \<lparr>metadata = [], page_content = ''short''\<rparr>])) ''diabetes'' 3 ! 0))
     = 203 \<and>
   content (get_relevant_sources
       (Some (\<lambda>q k. Inr [\<lparr>metadata = [], page_content = replicate 250 (CHR ''a'')\<rparr>,
                          \<lparr>metadata = [], page_content = ''short''\<rparr>])) ''diabetes'' 3 ! 1)
     = ''short'' \<and>
   get_relevant_sources (Some (\<lambda>q k. Inl (OtherException ''unreachable''))) ''diabetes'' 3 = []"
proof -
  let ?d1 = "\<lparr>metadata = [], page_content = replicate 250 (CHR ''a'')\<rparr>"
  let ?d2 = "\<lparr>metadata = [], page_content = ''short''\<rparr>"
  let ?s = "\<lambda>(q::string) (k::int). (Inr [?d1, ?d2] :: py_exc + document list)"
  let ?f = "\<lambda>(q::string) (k::int). (Inl (OtherException ''unreachable'') :: py_exc + document list)"
  have h: "?s ''diabetes'' 3 = Inr [?d1, ?d2]" by simp
  have l: "length (page_content ?d1) = 250" by simp
  note inst = sources_truncated [of ?s "''diabetes''" 3 "[?d1, ?d2]" ?d1 "OtherException ''unreachable''"]
  from inst h have all: "\<forall>i < length [?d1, ?d2].
         (200 < length (page_content ([?d1, ?d2] ! i)) \<longrightarrow>
            content (get_relevant_sources (Some ?s) ''diabetes'' 3 ! i) =
              take 200 (page_content ([?d1, ?d2] ! i)) @ ''...'' \<and>
            length (content (get_relevant_sources (Some ?s) ''diabetes'' 3 ! i)) = 203) \<and>
         (length (page_content ([?d1, ?d2] ! i)) \<le> 200 \<longrightarrow>
            content (get_relevant_sources (Some ?s) ''diabetes'' 3 ! i) =
              page_content ([?d1, ?d2] ! i))"
    by blast
  from all [rule_format, of 0]
  have a: "content (get_relevant_sources (Some ?s) ''diabetes'' 3 ! 0)
             = replicate 200 (CHR ''a'') @ ''...''"
    and b: "length (content (get_relevant_sources (Some ?s) ''diabetes'' 3 ! 0)) = 203"
    by simp_all
  from all [rule_format, of 1]
  have c: "content (get_relevant_sources (Some ?s) ''diabetes'' 3 ! 1) = ''short''"
    by simp
  have d: "get_relevant_sources (Some ?f) ''diabetes'' 3 = []"
    using sources_truncated [of ?f "''diabetes''" 3 "[]" ?d1 "OtherException ''unreachable''"]
    by blast
  show ?thesis
    by (rule conjI [OF h conjI [OF l conjI [OF a conjI [OF b conjI [OF c d]]]]])
qed

text \<open>
  Claim C10. For a passage whose metadata has no \<^verbatim>\<open>source\<close> entry, the retrieval
  tool formats the passage with \<^verbatim>\<open>Unknown\<close> as its source, and the entry that
  \<^verbatim>\<open>get_relevant_sources\<close> returns for it has the string \<^verbatim>\<open>"Unknown"\<close> as its
  source field: the field is present and is not \<^verbatim>\<open>None\<close>.
\<close>

theorem unknown_source_default:
  "(map_of (metadata doc) ''source'' = None \<longrightarrow>
      format_doc py_str doc = ''Source: Unknown\<newline>Content: '' @ page_content doc \<and>
      source (source_of_doc doc) = PStr ''Unknown'' \<and>
      source (source_of_doc doc) \<noteq> PNone) \<and>
   (similarity_search query 3 = Inr docs \<and> docs \<noteq> [] \<and>
    (\<forall>d \<in> set docs. map_of (metadata d) ''source'' = None) \<longrightarrow>
      fst (retrieve_medical_context py_str (Some similarity_search) query) =
        join ''\<newline>\<newline>'' (map (\<lambda>d. ''Source: Unknown\<newline>Content: '' @ page_content d) docs)) \<and>
   (similarity_search' query k = Inr docs' \<longrightarrow>
      (\<forall>i < length docs'. map_of (metadata (docs' ! i)) ''source'' = None \<longrightarrow>
         source (get_relevant_sources (Some similarity_search') query k ! i) = PStr ''Unknown''))"
proof (intro conjI impI)
  assume "map_of (metadata doc) ''source'' = None"
  then show "format_doc py_str doc = ''Source: Unknown\<newline>Content: '' @ page_content doc"
    and "source (source_of_doc doc) = PStr ''Unknown''"
    and "source (source_of_doc doc) \<noteq> PNone"
    by (simp_all add: format_doc_def format_value_def metadata_source_def source_of_doc_def)
next
  assume h: "similarity_search query 3 = Inr docs \<and> docs \<noteq> [] \<and>
    (\<forall>d \<in> set docs. map_of (metadata d) ''source'' = None)"
  then have m: "map (format_doc py_str) docs =
      map (\<lambda>d. ''Source: Unknown\<newline>Content: '' @ page_content d) docs"
    by (simp add: format_doc_def format_value_def metadata_source_def)
  from h have r: "fst (retrieve_medical_context py_str (Some similarity_search) query) =
      join ''\<newline>\<newline>'' (map (format_doc py_str) docs)"
    by (simp add: retrieve_medical_context_def)
  show "fst (retrieve_medical_context py_str (Some similarity_search) query) =
        join ''\<newline>\<newline>'' (map (\<lambda>d. ''Source: Unknown\<newline>Content: '' @ page_content d) docs)"
    by (simp only: r m)
next
  assume "similarity_search' query k = Inr docs'"
  then show "\<forall>i < length docs'. map_of (metadata (docs' ! i)) ''source'' = None \<longrightarrow>
         source (get_relevant_sources (Some similarity_search') query k ! i) = PStr ''Unknown''"
    by (simp add: get_relevant_sources_def source_of_doc_def metadata_source_def)
qed

theorem unknown_source_default_witness:
  "map_of (metadata \<lparr>metadata = [(''page'', PInt 3)], page_content = ''Insulin.''\<rparr>) ''source'' = None \<and>
   format_doc (\<lambda>v. ''None'') \<lparr>metadata = [(''page'', PInt 3)], page_content = ''Insulin.''\<rparr>
     = ''Source: Unknown\<newline>Content: Insulin.'' \<and>
   source (source_of_doc \<lparr>metadata = [(''page'', PInt 3)], page_content = ''Insulin.''\<rparr>)
     = PStr ''Unknown'' \<and>
   fst (retrieve_medical_context (\<lambda>v. ''None'')
          (Some (\<lambda>q k. Inr [\<lparr>metadata = [(''page'', PInt 3)], page_content = ''Insulin.''\<rparr>]))
          ''diabetes'')
     = ''Source: Unknown\<newline>Content: Insulin.'' \<and>
   source (get_relevant_sources
       (Some (\<lambda>q k. Inr [\<lparr>metadata = [(''source'', PStr ''book.pdf'')], page_content = ''Rest.''\<rparr>,
                          \<lparr>metadata = [(''page'', PInt 3)], page_content = ''Insulin.''\<rparr>]))
       ''diabetes'' 3 ! 1)
     = PStr ''Unknown''"
proof -
  let ?d0 = "\<lparr>metadata = [(''page'', PInt 3)], page_content = ''Insulin.''\<rparr>"
  let ?d1 = "\<lparr>metadata = [(''source'', PStr ''book.pdf'')], page_content = ''Rest.''\<rparr>"
  let ?s = "\<lambda>(q::string) (k::int). (Inr [?d0] :: py_exc + document list)"
  let ?s' = "\<lambda>(q::string) (k::int). (Inr [?d1, ?d0] :: py_exc + document list)"
  note inst = unknown_source_default
    [of ?d0 "\<lambda>v. ''None''" ?s "''diabetes''" "[?d0]" ?s' 3 "[?d1, ?d0]"]
  have h: "map_of (metadata ?d0) ''source'' = None" by simp
  have hs: "?s ''diabetes'' 3 = Inr [?d0] \<and> [?d0] \<noteq> [] \<and>
      (\<forall>d \<in> set [?d0]. map_of (metadata d) ''source'' = None)" by simp
  have hs': "?s' ''diabetes'' 3 = Inr [?d1, ?d0]" by simp
  have h1: "1 < length [?d1, ?d0]" by simp
  have h2: "map_of (metadata ([?d1, ?d0] ! 1)) ''source'' = None" by simp
  have a: "format_doc (\<lambda>v. ''None'') ?d0 = ''Source: Unknown\<newline>Content: '' @ page_content ?d0"
    and b: "source (source_of_doc ?d0) = PStr ''Unknown''"
    using inst h by blast+
  have c: "fst (retrieve_medical_context (\<lambda>v. ''None'') (Some ?s) ''diabetes'') =
      join ''\<newline>\<newline>'' (map (\<lambda>d. ''Source: Unknown\<newline>Content: '' @ page_content d) [?d0])"
    using inst hs by blast
  have d: "source (get_relevant_sources (Some ?s') ''diabetes'' 3 ! 1) = PStr ''Unknown''"
    using inst hs' h1 h2 by blast
  have e1: "''Source: Unknown\<newline>Content: '' @ page_content ?d0
      = ''Source: Unknown\<newline>Content: Insulin.''" by simp
  have e2: "join ''\<newline>\<newline>'' (map (\<lambda>d. ''Source: Unknown\<newline>Content: '' @ page_content d) [?d0])
      = ''Source: Unknown\<newline>Content: Insulin.''" by simp
  show ?thesis
    by (rule conjI [OF h conjI [OF a [unfolded e1] conjI [OF b conjI [OF c [unfolded e2] d]]]])
qed

section \<open>Claims about the Session and History Store\<close>

lemma index_valid_session:
  "uuid \<noteq> [] \<Longrightarrow> valid_session st \<Longrightarrow> valid_session (index uuid st)"
  by (auto simp: valid_session_def index_def split: option.splits)

lemma chat_try_session:
  "session_id (snd (chat_try agent data uuid now1 now2 now3 st)) = session_id st \<or>
   session_id (snd (chat_try agent data uuid now1 now2 now3 st)) =
     Some (case session_id st of Some s \<Rightarrow> s | None \<Rightarrow> uuid)"
  by (auto simp: chat_try_def Let_def append_turn_def
        split: option.splits pyval.splits sum.splits if_splits)

lemma chat_valid_session:
  assumes "uuid \<noteq> []" and "valid_session st"
  shows "valid_session (snd (chat chatbot data uuid now1 now2 now3 st))"
proof (cases chatbot)
  case None
  with assms show ?thesis by (simp add: chat_def)
next
  case (Some agent)
  then have "snd (chat chatbot data uuid now1 now2 now3 st) =
      snd (chat_try agent data uuid now1 now2 now3 st)"
    by (simp add: chat_def split: prod.splits sum.splits)
  with chat_try_session [of agent data uuid now1 now2 now3 st] assms show ?thesis
    by (auto simp: valid_session_def split: option.splits)
qed

lemma chat_success:
  assumes "map_of d ''message'' = Some (PStr m)"
    and "strip m \<noteq> []" and "length (strip m) \<le> 1000"
    and "session_id st = Some sid" and "conversations st sid = Some ts"
  shows "chat (Some agent) (Some d) uuid now1 now2 now3 st =
           (ChatReply (get_response (strip m) (agent (strip m))) now3,
            st\<lparr>conversations := (conversations st)(sid \<mapsto>
                 ts @ [\<lparr>role = ''user'', message = strip m, timestamp = now1\<rparr>,
                       \<lparr>role = ''assistant'',
                        message = get_response (strip m) (agent (strip m)),
                        timestamp = now2\<rparr>])\<rparr>)"
  using assms by (simp add: chat_def chat_try_def Let_def append_turn_def)

text \<open>
  Claim C9. Reading the history of a client whose session identifier is not a key of the
  store (or who has no session identifier) gives the empty sequence. Clearing the history
  of a client whose identifier \<open>sid\<close> is a key of the store replaces its turn list with the
  empty list, keeps \<open>sid\<close> as a key and leaves every other entry as it was; clearing for
  an unknown identifier changes nothing. A turn appended after a clear is the first and
  only element of the new sequence, and a successful \<^verbatim>\<open>chat\<close> request after a clear
  leaves the history with the user's turn first, followed by the assistant's turn.
  Session identifiers are non-empty strings.
\<close>

theorem history_store:
  "(session_id st = None \<or> (session_id st = Some sid \<and> conversations st sid = None) \<longrightarrow>
      get_history st = HistoryReply [] \<and> snd (clear_history st) = st) \<and>
   (session_id st = Some sid \<and> sid \<noteq> [] \<and> conversations st sid = Some ts \<longrightarrow>
      get_history st = HistoryReply ts \<and>
      conversations (snd (clear_history st)) sid = Some [] \<and>
      sid \<in> dom (conversations (snd (clear_history st))) \<and>
      session_id (snd (clear_history st)) = Some sid \<and>
      (\<forall>sid'. sid' \<noteq> sid \<longrightarrow>
         conversations (snd (clear_history st)) sid' = conversations st sid') \<and>
      get_history (snd (clear_history st)) = HistoryReply [] \<and>
      (\<exists>convs. append_turn (conversations (snd (clear_history st))) sid t = Inr convs \<and>
                convs sid = Some [t]) \<and>
      (map_of d ''message'' = Some (PStr m) \<and> strip m \<noteq> [] \<and> length (strip m) \<le> 1000 \<longrightarrow>
         get_history (snd (chat (Some agent) (Some d) uuid now1 now2 now3 (snd (clear_history st)))) =
           HistoryReply
             [\<lparr>role = ''user'', message = strip m, timestamp = now1\<rparr>,
              \<lparr>role = ''assistant'', message = get_response (strip m) (agent (strip m)),
               timestamp = now2\<rparr>]))"
proof (intro conjI impI)
  assume "session_id st = None \<or> (session_id st = Some sid \<and> conversations st sid = None)"
  then show "get_history st = HistoryReply []" and "snd (clear_history st) = st"
    by (auto simp: get_history_def clear_history_def)
next
  assume h: "session_id st = Some sid \<and> sid \<noteq> [] \<and> conversations st sid = Some ts"
  let ?st = "snd (clear_history st)"
  from h have c: "?st = st\<lparr>conversations := (conversations st)(sid \<mapsto> [])\<rparr>"
    by (simp add: clear_history_def)
  from h show "get_history st = HistoryReply ts"
    by (simp add: get_history_def)
  show "conversations ?st sid = Some []" by (simp add: c)
  show "sid \<in> dom (conversations ?st)" by (simp add: c)
  from h show s: "session_id ?st = Some sid" by (simp add: c)
  show "\<forall>sid'. sid' \<noteq> sid \<longrightarrow> conversations ?st sid' = conversations st sid'"
    by (simp add: c)
  from h show "get_history ?st = HistoryReply []"
    by (simp add: c get_history_def)
  show "\<exists>convs. append_turn (conversations ?st) sid t = Inr convs \<and> convs sid = Some [t]"
    by (simp add: c append_turn_def)
  {
    assume m: "map_of d ''message'' = Some (PStr m) \<and> strip m \<noteq> [] \<and> length (strip m) \<le> 1000"
    have sc: "session_id ?st = Some sid" by (rule s)
    have cc: "conversations ?st sid = Some []" by (simp add: c)
    from m have m1: "map_of d ''message'' = Some (PStr m)" and m2: "strip m \<noteq> []"
      and m3: "length (strip m) \<le> 1000" by simp_all
    show "get_history (snd (chat (Some agent) (Some d) uuid now1 now2 now3 ?st)) =
           HistoryReply
             [\<lparr>role = ''user'', message = strip m, timestamp = now1\<rparr>,
              \<lparr>role = ''assistant'', message = get_response (strip m) (agent (strip m)),
               timestamp = now2\<rparr>]"
      unfolding chat_success [OF m1 m2 m3 sc cc]
      using h by (simp add: get_history_def c)
  }
qed

theorem history_store_witness:
  "session_id \<lparr>conversations = [''s1'' \<mapsto> [\<lparr>role = ''user'', message = ''old'', timestamp = ''t0''\<rparr>]],
               session_id = Some ''s1''\<rparr> = Some ''s1'' \<and>
   ''s1'' \<noteq> [] \<and>
   conversations \<lparr>conversations = [''s1'' \<mapsto> [\<lparr>role = ''user'', message = ''old'', timestamp = ''t0''\<rparr>]],
                  session_id = Some ''s1''\<rparr> ''s1''
     = Some [\<lparr>role = ''user'', message = ''old'', timestamp = ''t0''\<rparr>] \<and>
   map_of [(''message'', PStr '' hello '')] ''message'' = Some (PStr '' hello '') \<and>
   strip '' hello '' = ''hello'' \<and>
   length (strip '' hello '') \<le> 1000 \<and>
   get_history (snd (clear_history
      \<lparr>conversations = [''s1'' \<mapsto> [\<lparr>role = ''user'', message = ''old'', timestamp = ''t0''\<rparr>]],
       session_id = Some ''s1''\<rparr>)) = HistoryReply [] \<and>
   conversations (snd (clear_history
      \<lparr>conversations = [''s1'' \<mapsto> [\<lparr>role = ''user'', message = ''old'', timestamp = ''t0''\<rparr>]],
       session_id = Some ''s1''\<rparr>)) ''s1'' = Some [] \<and>
   get_history (snd (chat (Some (\<lambda>q. ([], Exhausted))) (Some [(''message'', PStr '' hello '')])
      ''u1'' ''t1'' ''t2'' ''t3''
      (snd (clear_history
        \<lparr>conversations = [''s1'' \<mapsto> [\<lparr>role = ''user'', message = ''old'', timestamp = ''t0''\<rparr>]],
         session_id = Some ''s1''\<rparr>))))
     = HistoryReply
         [\<lparr>role = ''user'', message = ''hello'', timestamp = ''t1''\<rparr>,
          \<lparr>role = ''assistant'',
           message = ''I apologize, but I couldn't generate a response. Please try rephrasing your question or ask something else.'',
           timestamp = ''t2''\<rparr>] \<and>
   get_history \<lparr>conversations = Map.empty, session_id = Some ''s2''\<rparr> = HistoryReply []"
proof -
  let ?old = "\<lparr>role = ''user'', message = ''old'', timestamp = ''t0''\<rparr>"
  let ?st = "\<lparr>conversations = [''s1'' \<mapsto> [?old]], session_id = Some ''s1''\<rparr>"
  let ?st2 = "\<lparr>conversations = (Map.empty :: string \<rightharpoonup> turn list), session_id = Some ''s2''\<rparr>"
  let ?d = "[(''message'', PStr '' hello '')]"
  let ?agent = "\<lambda>q::string. ([] :: event list, Exhausted)"
  have h1: "session_id ?st = Some ''s1''" by simp
  have h2: "''s1'' \<noteq> []" by simp
  have h3: "conversations ?st ''s1'' = Some [?old]" by simp
  have m1: "map_of ?d ''message'' = Some (PStr '' hello '')" by simp
  have m2: "strip '' hello '' = ''hello''" by (simp add: strip_def is_space_def)
  have m2': "strip '' hello '' \<noteq> []" by (simp add: m2)
  have m3: "length (strip '' hello '') \<le> 1000" by (simp add: m2)
  note inst = history_store [of ?st "''s1''" "[?old]" ?old ?d "'' hello ''" ?agent
      "''u1''" "''t1''" "''t2''" "''t3''"]
  have a: "get_history (snd (clear_history ?st)) = HistoryReply []"
    using inst h1 h2 h3 by blast
  have b: "conversations (snd (clear_history ?st)) ''s1'' = Some []"
    using inst h1 h2 h3 by blast
  have c: "get_history (snd (chat (Some ?agent) (Some ?d) ''u1'' ''t1'' ''t2'' ''t3''
              (snd (clear_history ?st)))) =
           HistoryReply
             [\<lparr>role = ''user'', message = strip '' hello '', timestamp = ''t1''\<rparr>,
              \<lparr>role = ''assistant'',
               message = get_response (strip '' hello '') (?agent (strip '' hello '')),
               timestamp = ''t2''\<rparr>]"
    using inst h1 h2 h3 m1 m2' m3 by blast
  have g: "get_response ''hello'' ([], Exhausted) =
      ''I apologize, but I couldn't generate a response. Please try rephrasing your question or ask something else.''"
    by (simp add: get_response_def get_response_try_def strip_def is_space_def)
  have k1: "session_id ?st2 = Some ''s2'' \<and> conversations ?st2 ''s2'' = None" by simp
  have d: "get_history ?st2 = HistoryReply []"
    using history_store [of ?st2 "''s2''" "[]" ?old ?d "'' hello ''" ?agent
      "''u1''" "''t1''" "''t2''" "''t3''"] k1 by blast
  have c': "get_history (snd (chat (Some ?agent) (Some ?d) ''u1'' ''t1'' ''t2'' ''t3''
              (snd (clear_history ?st)))) =
           HistoryReply
             [\<lparr>role = ''user'', message = ''hello'', timestamp = ''t1''\<rparr>,
              \<lparr>role = ''assistant'',
               message = ''I apologize, but I couldn't generate a response. Please try rephrasing your question or ask something else.'',
               timestamp = ''t2''\<rparr>]"
    using c unfolding m2 g .
  show ?thesis
    by (rule conjI [OF h1 conjI [OF h2 conjI [OF h3 conjI [OF m1 conjI [OF m2 conjI [OF m3
          conjI [OF a conjI [OF b conjI [OF c' d]]]]]]]]])
qed

end
